theory Spec2Isabelle
  imports Complex_Main
begin

section \<open>The style resolver of inscriptis (\<^verbatim>\<open>src/inscriptis/css.py\<close>)\<close>

text \<open>
  The module is embedded as it runs under Python 3. A Python \<^verbatim>\<open>str\<close> is a
  sequence of code points; the model takes the code points below 256, so a
  \<^typ>\<open>char\<close> is one code point and a \<^typ>\<open>string\<close> one \<^verbatim>\<open>str\<close>. Every
  exception the module can raise is a value of \<open>error\<close>, and a function that may
  raise returns \<open>error + 'a\<close>.
\<close>

subsection \<open>Characters and the string methods the module calls\<close>

definition code :: "char \<Rightarrow> nat" where
  "code c = of_char c"

text \<open>\<^verbatim>\<open>str.isspace\<close> on one code point below 256.\<close>

definition isspace :: "char \<Rightarrow> bool" where
  "isspace c \<longleftrightarrow>
     (9 \<le> code c \<and> code c \<le> 13) \<or> (28 \<le> code c \<and> code c \<le> 32) \<or>
     code c = 133 \<or> code c = 160"

text \<open>The ASCII digits, the class \<^verbatim>\<open>0-9\<close> of the pattern.\<close>

definition isdigit :: "char \<Rightarrow> bool" where
  "isdigit c \<longleftrightarrow> 48 \<le> code c \<and> code c \<le> 57"

text \<open>
  The class \<^verbatim>\<open>\w\<close> of a \<^verbatim>\<open>str\<close> pattern: the underscore and every code point
  that \<^verbatim>\<open>str.isalnum\<close> accepts (letters, digits, and below 256 also the
  ordinal indicators, the micro sign, the superscripts and the fractions).
\<close>

definition isword :: "char \<Rightarrow> bool" where
  "isword c \<longleftrightarrow>
     isdigit c \<or> (65 \<le> code c \<and> code c \<le> 90) \<or> code c = 95 \<or>
     (97 \<le> code c \<and> code c \<le> 122) \<or>
     code c = 170 \<or> code c = 178 \<or> code c = 179 \<or> code c = 181 \<or>
     code c = 185 \<or> code c = 186 \<or> (188 \<le> code c \<and> code c \<le> 190) \<or>
     (192 \<le> code c \<and> code c \<le> 214) \<or> (216 \<le> code c \<and> code c \<le> 246) \<or>
     248 \<le> code c"

text \<open>\<^verbatim>\<open>str.lower\<close>: the upper-case letters below 256 move up by 32.\<close>

definition lower_char :: "char \<Rightarrow> char" where
  "lower_char c =
     (if (65 \<le> code c \<and> code c \<le> 90) \<or>
         (192 \<le> code c \<and> code c \<le> 222 \<and> code c \<noteq> 215)
      then char_of (code c + 32) else c)"

definition lower :: "string \<Rightarrow> string" where
  "lower s = map lower_char s"

text \<open>\<^verbatim>\<open>s.strip()\<close> removes the white space at both ends.\<close>

definition strip :: "string \<Rightarrow> string" where
  "strip s = rev (dropWhile isspace (rev (dropWhile isspace s)))"

text \<open>
  \<^verbatim>\<open>s.split(sep)\<close> for a separator of one character: the pieces between the
  separators, in order; it never returns the empty list.
\<close>

fun split :: "char \<Rightarrow> string \<Rightarrow> string list" where
  "split sep [] = [[]]"
| "split sep (c # cs) =
     (if c = sep then [] # split sep cs
      else (case split sep cs of [] \<Rightarrow> [[c]] | p # ps \<Rightarrow> (c # p) # ps))"

text \<open>
  \<^verbatim>\<open>s.split(sep, 1)\<close> on a string that contains the separator: the text before
  the first separator and the text after it.
\<close>

definition split1 :: "char \<Rightarrow> string \<Rightarrow> string \<times> string" where
  "split1 sep s = (takeWhile (\<lambda>c. c \<noteq> sep) s, drop 1 (dropWhile (\<lambda>c. c \<noteq> sep) s))"

fun startswith :: "string \<Rightarrow> string \<Rightarrow> bool" where
  "startswith s [] = True"
| "startswith [] (p # ps) = False"
| "startswith (c # cs) (p # ps) = (c = p \<and> startswith cs ps)"

text \<open>
  \<^verbatim>\<open>s.replace(old, new)\<close> for a non-empty \<^verbatim>\<open>old\<close>: the occurrences are found
  from the left and do not overlap.
\<close>

function replace :: "string \<Rightarrow> string \<Rightarrow> string \<Rightarrow> string" where
  "replace old new [] = []"
| "replace old new (c # cs) =
     (if old \<noteq> [] \<and> startswith (c # cs) old
      then new @ replace old new (drop (length old) (c # cs))
      else c # replace old new cs)"
  by pat_completeness auto
termination
  by (relation "measure (\<lambda>(old, new, s). length s)") auto

subsection \<open>Exceptions\<close>

text \<open>
  The three exceptions the module can raise: \<^verbatim>\<open>AttributeError\<close> (a missing
  handler, or \<^verbatim>\<open>m.group\<close> when \<^verbatim>\<open>m\<close> is \<^verbatim>\<open>None\<close>), \<^verbatim>\<open>ValueError\<close> (from
  \<^verbatim>\<open>float\<close>) and \<^verbatim>\<open>OverflowError\<close> (from \<^verbatim>\<open>round\<close> of an infinity).
\<close>

datatype error = AttributeError | ValueError | OverflowError

subsection \<open>The pattern \<^verbatim>\<open>RE_UNIT = ([\-0-9\.]+)(\w+)\<close>\<close>

text \<open>The class \<^verbatim>\<open>[\-0-9\.]\<close> of the first group.\<close>

definition isnumchar :: "char \<Rightarrow> bool" where
  "isnumchar c \<longleftrightarrow> c = CHR ''-'' \<or> isdigit c \<or> c = CHR ''.''"

text \<open>
  A match that starts at the head of \<open>s\<close>. Both groups are greedy: the first
  group takes \<open>k\<close> characters of the run of class characters, the longest
  \<open>k\<close> first, and the second group then takes every word character that
  follows; when none follows, the first group gives one character back.
\<close>

fun RE_UNIT_backtrack :: "nat \<Rightarrow> string \<Rightarrow> (string \<times> string) option" where
  "RE_UNIT_backtrack 0 s = None"
| "RE_UNIT_backtrack (Suc k) s =
     (if takeWhile isword (drop (Suc k) s) \<noteq> []
      then Some (take (Suc k) s, takeWhile isword (drop (Suc k) s))
      else RE_UNIT_backtrack k s)"

definition RE_UNIT_match :: "string \<Rightarrow> (string \<times> string) option" where
  "RE_UNIT_match s = RE_UNIT_backtrack (length (takeWhile isnumchar s)) s"

text \<open>
  \<^verbatim>\<open>RE_UNIT.search(length)\<close>: the match at the leftmost position that has
  one, as the pair (\<^verbatim>\<open>m.group(1)\<close>, \<^verbatim>\<open>m.group(2)\<close>), and \<open>None\<close> when no
  position has one.
\<close>

fun RE_UNIT_search :: "string \<Rightarrow> (string \<times> string) option" where
  "RE_UNIT_search [] = None"
| "RE_UNIT_search (c # cs) =
     (case RE_UNIT_match (c # cs) of
        Some m \<Rightarrow> Some m
      | None \<Rightarrow> RE_UNIT_search cs)"

subsection \<open>Floating-point numbers\<close>

text \<open>
  A Python \<^verbatim>\<open>float\<close> is an IEEE 754 binary64 number. The finite ones are
  rationals; the two infinities are values of their own. (A NaN cannot arise
  here, and the sign of a zero is not observable through \<^verbatim>\<open>round\<close>.)
\<close>

datatype pyfloat = Finite rat | PosInf | NegInf

definition pow2 :: "int \<Rightarrow> rat" where
  "pow2 e = (if 0 \<le> e then 2 ^ nat e else 1 / 2 ^ nat (- e))"

text \<open>\<^verbatim>\<open>int.bit_length\<close>: the number of binary digits of a natural number.\<close>

fun bit_length :: "nat \<Rightarrow> nat" where
  "bit_length n = (if n = 0 then 0 else Suc (bit_length (n div 2)))"

declare bit_length.simps [simp del]

text \<open>
  The binary exponent \<open>e\<close> of a positive rational \<open>a\<close>, the one with
  \<open>2 ^ e \<le> a < 2 ^ (e + 1)\<close>: from the integer part when \<open>1 \<le> a\<close>, from the
  reciprocal otherwise.
\<close>

definition exponent :: "rat \<Rightarrow> int" where
  "exponent a =
     (if 1 \<le> a then int (bit_length (nat \<lfloor>a\<rfloor>)) - 1
      else - int (bit_length (nat (\<lceil>1 / a\<rceil> - 1))))"

text \<open>Rounding to an integer, a tie going to the even neighbour.\<close>

definition round_half_even :: "rat \<Rightarrow> int" where
  "round_half_even x =
     (let f = \<lfloor>x\<rfloor>; d = x - of_int f
      in if d < 1 / 2 then f
         else if 1 / 2 < d then f + 1
         else if even f then f else f + 1)"

text \<open>
  The binary64 number nearest to a rational, ties to even: 53 significant
  bits, the quantum never below \<open>2 ^ -1074\<close> (the subnormal numbers), and an
  infinity once the rounded magnitude reaches \<open>2 ^ 1024\<close>.
\<close>

definition binary64 :: "rat \<Rightarrow> pyfloat" where
  "binary64 x =
     (if x = 0 then Finite 0
      else let a = \<bar>x\<bar>;
               quantum = pow2 (max (exponent a) (- 1022) - 52);
               r = of_int (round_half_even (a / quantum)) * quantum
           in if pow2 1024 \<le> r then (if 0 < x then PosInf else NegInf)
              else Finite (if 0 < x then r else - r))"

text \<open>
  \<^verbatim>\<open>float(s)\<close> for a string of the class \<^verbatim>\<open>[\-0-9\.]\<close>, which is all that group 1
  of the pattern can hold. Such a string is a float literal when it is an
  optional \<^verbatim>\<open>-\<close>, then digits with at most one \<^verbatim>\<open>.\<close> among them and at least
  one digit; its value is the nearest binary64 number. Anything else raises
  \<^verbatim>\<open>ValueError\<close>.
\<close>

definition digit_value :: "char \<Rightarrow> nat" where
  "digit_value c = code c - 48"

definition decimal :: "string \<Rightarrow> nat" where
  "decimal ds = foldl (\<lambda>n c. 10 * n + digit_value c) 0 ds"

definition float :: "string \<Rightarrow> error + pyfloat" where
  "float s =
     (let negative = startswith s ''-'';
          body = (if negative then drop 1 s else s);
          whole = takeWhile isdigit body;
          rest = dropWhile isdigit body;
          frac = drop 1 rest
      in if (rest = [] \<or> startswith rest ''.'') \<and> list_all isdigit frac \<and> whole @ frac \<noteq> []
         then Inr (binary64 ((if negative then - 1 else 1) *
                 (of_nat (decimal (whole @ frac)) / 10 ^ length frac)))
         else Inl ValueError)"

text \<open>\<^verbatim>\<open>value / 8\<close>: the quotient of a float by a positive float, rounded once.\<close>

definition truediv :: "pyfloat \<Rightarrow> rat \<Rightarrow> pyfloat" where
  "truediv x d = (case x of Finite a \<Rightarrow> binary64 (a / d) | PosInf \<Rightarrow> PosInf | NegInf \<Rightarrow> NegInf)"

text \<open>
  \<^verbatim>\<open>int(round(x))\<close>: Python 3 rounds a float to the nearest integer, a tie to
  the even one, and raises \<^verbatim>\<open>OverflowError\<close> on an infinity.
\<close>

definition round_float :: "pyfloat \<Rightarrow> error + int" where
  "round_float x = (case x of Finite a \<Rightarrow> Inr (round_half_even a) | PosInf \<Rightarrow> Inl OverflowError
     | NegInf \<Rightarrow> Inl OverflowError)"

subsection \<open>Length conversion\<close>

text \<open>
  \<^verbatim>\<open>CssParse._get_em\<close>. When the search finds nothing, \<^verbatim>\<open>m\<close> is \<^verbatim>\<open>None\<close> and
  \<^verbatim>\<open>m.group(1)\<close> raises \<^verbatim>\<open>AttributeError\<close>.
\<close>

definition get_em :: "string \<Rightarrow> error + int" where
  "get_em len =
     (case RE_UNIT_search len of
        None \<Rightarrow> Inl AttributeError
      | Some (group1, unit) \<Rightarrow>
          (case float group1 of
             Inl e \<Rightarrow> Inl e
           | Inr value \<Rightarrow>
               if unit \<notin> {''em'', ''qem'', ''rem''}
               then round_float (truediv value 8)
               else round_float value))"

subsection \<open>The property record\<close>

text \<open>
  Modelled from the spec: the enumerations \<^verbatim>\<open>Display\<close> and \<^verbatim>\<open>WhiteSpace\<close> of
  \<^verbatim>\<open>inscriptis.html_properties\<close>, a module that \<^verbatim>\<open>css.py\<close> imports; the spec
  gives their members as block, inline, none and normal, pre.
\<close>

datatype Display = inline | block | none

datatype WhiteSpace = normal | pre

text \<open>The class \<^verbatim>\<open>HtmlElement\<close>: its eight slots.\<close>

record HtmlElement =
  tag :: string
  prefix :: string
  suffix :: string
  display :: Display
  margin_before :: int
  margin_after :: int
  padding :: int
  whitespace :: WhiteSpace

text \<open>\<^verbatim>\<open>HtmlElement.clone\<close> builds a new element from the eight slots of the old one.\<close>

definition clone :: "HtmlElement \<Rightarrow> HtmlElement" where
  "clone self =
     \<lparr>tag = tag self, prefix = prefix self, suffix = suffix self,
      display = display self, margin_before = margin_before self,
      margin_after = margin_after self, padding = padding self,
      whitespace = whitespace self\<rparr>"

subsection \<open>The handlers of \<^verbatim>\<open>CssParse\<close>\<close>

text \<open>
  A handler assigns one slot of the element it is given. Here it returns the
  element after the assignment, or the exception that \<^verbatim>\<open>_get_em\<close> raised,
  which leaves the element as it was.
\<close>

definition attr_display :: "string \<Rightarrow> HtmlElement \<Rightarrow> error + HtmlElement" where
  "attr_display value html_element =
     (if value = ''block'' then Inr (html_element\<lparr>display := block\<rparr>)
      else if value = ''none'' then Inr (html_element\<lparr>display := none\<rparr>)
      else Inr (html_element\<lparr>display := inline\<rparr>))"

definition attr_margin_top :: "string \<Rightarrow> HtmlElement \<Rightarrow> error + HtmlElement" where
  "attr_margin_top value html_element =
     (case get_em value of
        Inl e \<Rightarrow> Inl e
      | Inr n \<Rightarrow> Inr (html_element\<lparr>margin_before := n\<rparr>))"

definition attr_margin_bottom :: "string \<Rightarrow> HtmlElement \<Rightarrow> error + HtmlElement" where
  "attr_margin_bottom value html_element =
     (case get_em value of
        Inl e \<Rightarrow> Inl e
      | Inr n \<Rightarrow> Inr (html_element\<lparr>margin_after := n\<rparr>))"

definition attr_padding_left :: "string \<Rightarrow> HtmlElement \<Rightarrow> error + HtmlElement" where
  "attr_padding_left value html_element =
     (case get_em value of
        Inl e \<Rightarrow> Inl e
      | Inr n \<Rightarrow> Inr (html_element\<lparr>padding := n\<rparr>))"

text \<open>
  \<^verbatim>\<open>getattr(CssParse, name)\<close> for a name that starts with \<^verbatim>\<open>_attr_\<close>: the
  class has the four handlers and the three aliases registered after them,
  and no other attribute of that prefix; any other name raises
  \<^verbatim>\<open>AttributeError\<close>.
\<close>

definition getattr :: "string \<Rightarrow> error + (string \<Rightarrow> HtmlElement \<Rightarrow> error + HtmlElement)" where
  "getattr name =
     (if name = ''_attr_display'' then Inr attr_display
      else if name = ''_attr_margin_top'' then Inr attr_margin_top
      else if name = ''_attr_margin_bottom'' then Inr attr_margin_bottom
      else if name = ''_attr_padding_left'' then Inr attr_padding_left
      else if name = ''_attr_margin_before'' then Inr attr_margin_top
      else if name = ''_attr_margin_after'' then Inr attr_margin_bottom
      else if name = ''_attr_padding_start'' then Inr attr_padding_left
      else Inl AttributeError)"

subsection \<open>Resolution\<close>

text \<open>The name that \<^verbatim>\<open>get_style_attribute\<close> looks up for a key.\<close>

definition handler_name :: "string \<Rightarrow> string" where
  "handler_name key = ''_attr_'' @ replace ''-'' ''_'' (replace ''-webkit-'' [] key)"

text \<open>
  The \<^verbatim>\<open>try\<close> block of the loop: look the handler up and call it; an
  \<^verbatim>\<open>AttributeError\<close> from either is passed over, any other exception leaves
  the function.
\<close>

definition try_apply_style :: "string \<Rightarrow> string \<Rightarrow> HtmlElement \<Rightarrow> error + HtmlElement" where
  "try_apply_style key value custome_html_element =
     (case getattr (handler_name key) of
        Inl AttributeError \<Rightarrow> Inr custome_html_element
      | Inl e \<Rightarrow> Inl e
      | Inr apply_style \<Rightarrow>
          (case apply_style value custome_html_element of
             Inl AttributeError \<Rightarrow> Inr custome_html_element
           | Inl e \<Rightarrow> Inl e
           | Inr updated \<Rightarrow> Inr updated))"

text \<open>One pass of the loop body over a directive.\<close>

definition style_directive_step :: "string \<Rightarrow> HtmlElement \<Rightarrow> error + HtmlElement" where
  "style_directive_step style_directive custome_html_element =
     (if CHR '':'' \<notin> set style_directive then Inr custome_html_element
      else let (key, value) = split1 CHR '':'' style_directive
           in try_apply_style (strip key) (strip value) custome_html_element)"

text \<open>The \<^verbatim>\<open>for\<close> loop: the directives in order, stopping at an exception.\<close>

fun style_directives :: "string list \<Rightarrow> HtmlElement \<Rightarrow> error + HtmlElement" where
  "style_directives [] custome_html_element = Inr custome_html_element"
| "style_directives (style_directive # rest) custome_html_element =
     (case style_directive_step style_directive custome_html_element of
        Inl e \<Rightarrow> Inl e
      | Inr updated \<Rightarrow> style_directives rest updated)"

text \<open>\<^verbatim>\<open>CssParse.get_style_attribute\<close>.\<close>

definition get_style_attribute :: "string \<Rightarrow> HtmlElement \<Rightarrow> error + HtmlElement" where
  "get_style_attribute style_attribute html_element =
     style_directives (split CHR '';'' (lower style_attribute)) (clone html_element)"

subsection \<open>The default table\<close>

text \<open>\<^verbatim>\<open>HtmlElement()\<close> with every argument at its default.\<close>

definition HtmlElement_init :: HtmlElement where
  "HtmlElement_init =
     \<lparr>tag = ''/'', prefix = [], suffix = [], display = inline, margin_before = 0,
      margin_after = 0, padding = 0, whitespace = normal\<rparr>"

text \<open>\<^verbatim>\<open>DEFAULT_CSS\<close>, entry by entry in the order of the source.\<close>

definition DEFAULT_CSS :: "(string \<times> HtmlElement) list" where
  "DEFAULT_CSS =
     [(''head'', HtmlElement_init\<lparr>tag := ''head'', display := none\<rparr>),
      (''link'', HtmlElement_init\<lparr>tag := ''link'', display := none\<rparr>),
      (''meta'', HtmlElement_init\<lparr>tag := ''meta'', display := none\<rparr>),
      (''script'', HtmlElement_init\<lparr>tag := ''script'', display := none\<rparr>),
      (''title'', HtmlElement_init\<lparr>tag := ''title'', display := none\<rparr>),
      (''style'', HtmlElement_init\<lparr>tag := ''style'', display := none\<rparr>),
      (''p'', HtmlElement_init\<lparr>tag := ''p'', display := block, margin_before := 1,
         margin_after := 1\<rparr>),
      (''figure'', HtmlElement_init\<lparr>tag := ''figure'', display := block, margin_before := 1,
         margin_after := 1\<rparr>),
      (''h1'', HtmlElement_init\<lparr>tag := ''h1'', display := block, margin_before := 1,
         margin_after := 1\<rparr>),
      (''h2'', HtmlElement_init\<lparr>tag := ''h2'', display := block, margin_before := 1,
         margin_after := 1\<rparr>),
      (''h3'', HtmlElement_init\<lparr>tag := ''h3'', display := block, margin_before := 1,
         margin_after := 1\<rparr>),
      (''h4'', HtmlElement_init\<lparr>tag := ''h4'', display := block, margin_before := 1,
         margin_after := 1\<rparr>),
      (''h5'', HtmlElement_init\<lparr>tag := ''h5'', display := block, margin_before := 1,
         margin_after := 1\<rparr>),
      (''h6'', HtmlElement_init\<lparr>tag := ''h6'', display := block, margin_before := 1,
         margin_after := 1\<rparr>),
      (''ul'', HtmlElement_init\<lparr>tag := ''ul'', display := block, margin_before := 0,
         margin_after := 0, padding := 4\<rparr>),
      (''ol'', HtmlElement_init\<lparr>tag := ''ol'', display := block, margin_before := 0,
         margin_after := 0, padding := 4\<rparr>),
      (''li'', HtmlElement_init\<lparr>tag := ''li'', display := block\<rparr>),
      (''address'', HtmlElement_init\<lparr>tag := ''address'', display := block\<rparr>),
      (''article'', HtmlElement_init\<lparr>tag := ''article'', display := block\<rparr>),
      (''aside'', HtmlElement_init\<lparr>tag := ''aside'', display := block\<rparr>),
      (''div'', HtmlElement_init\<lparr>tag := ''div'', display := block\<rparr>),
      (''footer'', HtmlElement_init\<lparr>tag := ''footer'', display := block\<rparr>),
      (''header'', HtmlElement_init\<lparr>tag := ''header'', display := block\<rparr>),
      (''hgroup'', HtmlElement_init\<lparr>tag := ''hgroup'', display := block\<rparr>),
      (''layer'', HtmlElement_init\<lparr>tag := ''layer'', display := block\<rparr>),
      (''main'', HtmlElement_init\<lparr>tag := ''main'', display := block\<rparr>),
      (''nav'', HtmlElement_init\<lparr>tag := ''nav'', display := block\<rparr>),
      (''figcaption'', HtmlElement_init\<lparr>tag := ''figcaption'', display := block\<rparr>),
      (''blockquote'', HtmlElement_init\<lparr>tag := ''blockquote'', display := block\<rparr>),
      (''q'', HtmlElement_init\<lparr>tag := ''q'', prefix := [CHR 0x22], suffix := [CHR 0x22]\<rparr>),
      (''span'', HtmlElement_init\<lparr>tag := ''span''\<rparr>)]"

subsection \<open>Resolution over a store of objects\<close>

text \<open>
  The handlers assign slots of an object they share with their caller, and
  the table holds objects every caller shares. To follow who can see an
  assignment, the objects live in a store: a reference is an index into the
  list of all objects made so far, and a new object goes to the end. A
  function returns its result, or the exception it raised, with the store it
  leaves behind.
\<close>

type_synonym ref = nat

type_synonym store = "HtmlElement list"

definition clone_st :: "ref \<Rightarrow> store \<Rightarrow> ref \<times> store" where
  "clone_st self st = (length st, st @ [clone (st ! self)])"

definition attr_display_st :: "string \<Rightarrow> ref \<Rightarrow> store \<Rightarrow> (error + unit) \<times> store" where
  "attr_display_st value html_element st =
     (if value = ''block''
      then (Inr (), st[html_element := (st ! html_element)\<lparr>display := block\<rparr>])
      else if value = ''none''
      then (Inr (), st[html_element := (st ! html_element)\<lparr>display := none\<rparr>])
      else (Inr (), st[html_element := (st ! html_element)\<lparr>display := inline\<rparr>]))"

definition attr_margin_top_st :: "string \<Rightarrow> ref \<Rightarrow> store \<Rightarrow> (error + unit) \<times> store" where
  "attr_margin_top_st value html_element st =
     (case get_em value of
        Inl e \<Rightarrow> (Inl e, st)
      | Inr n \<Rightarrow> (Inr (), st[html_element := (st ! html_element)\<lparr>margin_before := n\<rparr>]))"

definition attr_margin_bottom_st :: "string \<Rightarrow> ref \<Rightarrow> store \<Rightarrow> (error + unit) \<times> store" where
  "attr_margin_bottom_st value html_element st =
     (case get_em value of
        Inl e \<Rightarrow> (Inl e, st)
      | Inr n \<Rightarrow> (Inr (), st[html_element := (st ! html_element)\<lparr>margin_after := n\<rparr>]))"

definition attr_padding_left_st :: "string \<Rightarrow> ref \<Rightarrow> store \<Rightarrow> (error + unit) \<times> store" where
  "attr_padding_left_st value html_element st =
     (case get_em value of
        Inl e \<Rightarrow> (Inl e, st)
      | Inr n \<Rightarrow> (Inr (), st[html_element := (st ! html_element)\<lparr>padding := n\<rparr>]))"

definition getattr_st ::
  "string \<Rightarrow> error + (string \<Rightarrow> ref \<Rightarrow> store \<Rightarrow> (error + unit) \<times> store)" where
  "getattr_st name =
     (if name = ''_attr_display'' then Inr attr_display_st
      else if name = ''_attr_margin_top'' then Inr attr_margin_top_st
      else if name = ''_attr_margin_bottom'' then Inr attr_margin_bottom_st
      else if name = ''_attr_padding_left'' then Inr attr_padding_left_st
      else if name = ''_attr_margin_before'' then Inr attr_margin_top_st
      else if name = ''_attr_margin_after'' then Inr attr_margin_bottom_st
      else if name = ''_attr_padding_start'' then Inr attr_padding_left_st
      else Inl AttributeError)"

definition try_apply_style_st ::
  "string \<Rightarrow> string \<Rightarrow> ref \<Rightarrow> store \<Rightarrow> (error + unit) \<times> store" where
  "try_apply_style_st key value custome_html_element st =
     (case getattr_st (handler_name key) of
        Inl AttributeError \<Rightarrow> (Inr (), st)
      | Inl e \<Rightarrow> (Inl e, st)
      | Inr apply_style \<Rightarrow>
          (case apply_style value custome_html_element st of
             (Inl AttributeError, st') \<Rightarrow> (Inr (), st')
           | (Inl e, st') \<Rightarrow> (Inl e, st')
           | (Inr u, st') \<Rightarrow> (Inr (), st')))"

definition style_directive_step_st ::
  "string \<Rightarrow> ref \<Rightarrow> store \<Rightarrow> (error + unit) \<times> store" where
  "style_directive_step_st style_directive custome_html_element st =
     (if CHR '':'' \<notin> set style_directive then (Inr (), st)
      else let (key, value) = split1 CHR '':'' style_directive
           in try_apply_style_st (strip key) (strip value) custome_html_element st)"

fun style_directives_st :: "string list \<Rightarrow> ref \<Rightarrow> store \<Rightarrow> (error + unit) \<times> store" where
  "style_directives_st [] custome_html_element st = (Inr (), st)"
| "style_directives_st (style_directive # rest) custome_html_element st =
     (case style_directive_step_st style_directive custome_html_element st of
        (Inl e, st') \<Rightarrow> (Inl e, st')
      | (Inr u, st') \<Rightarrow> style_directives_st rest custome_html_element st')"

definition get_style_attribute_st :: "string \<Rightarrow> ref \<Rightarrow> store \<Rightarrow> (error + ref) \<times> store" where
  "get_style_attribute_st style_attribute html_element st =
     (let (custome_html_element, st1) = clone_st html_element st
      in case style_directives_st (split CHR '';'' (lower style_attribute))
                custome_html_element st1 of
           (Inl e, st2) \<Rightarrow> (Inl e, st2)
         | (Inr u, st2) \<Rightarrow> (Inr custome_html_element, st2))"

text \<open>
  The store after the module is loaded holds the objects of the table, and
  the dictionary maps each tag to the reference of its object.
\<close>

definition module_store :: store where
  "module_store = map snd DEFAULT_CSS"

definition DEFAULT_CSS_refs :: "(string \<times> ref) list" where
  "DEFAULT_CSS_refs = zip (map fst DEFAULT_CSS) [0 ..< length DEFAULT_CSS]"

text \<open>\<^verbatim>\<open>DEFAULT_CSS.get(tag)\<close>, read through the store.\<close>

definition DEFAULT_CSS_get :: "string \<Rightarrow> store \<Rightarrow> HtmlElement option" where
  "DEFAULT_CSS_get tag_name st =
     (case map_of DEFAULT_CSS_refs tag_name of
        None \<Rightarrow> None
      | Some r \<Rightarrow> Some (st ! r))"

subsection \<open>Length conversion as the specification words it\<close>

text \<open>
  The specification describes the conversion by a grammar and not by the
  pattern: a number is an optional leading \<^verbatim>\<open>-\<close>, digits and an optional
  \<^verbatim>\<open>.\<close> with digits; the unit is the alphabetic run that follows, which is
  empty for a unitless value; the first such number in the value counts.
  The definitions below follow these words. The numeric value of a number
  is the float that Python reads from it.
\<close>

definition isalpha :: "char \<Rightarrow> bool" where
  "isalpha c \<longleftrightarrow> (65 \<le> code c \<and> code c \<le> 90) \<or> (97 \<le> code c \<and> code c \<le> 122)"

definition spec_number :: "string \<Rightarrow> string" where
  "spec_number s =
     (let sign = (if startswith s ''-'' then ''-'' else []);
          whole = takeWhile isdigit (drop (length sign) s);
          after = drop (length sign + length whole) s;
          frac = (if startswith after ''.'' \<and> takeWhile isdigit (drop 1 after) \<noteq> []
                  then CHR ''.'' # takeWhile isdigit (drop 1 after) else [])
      in if whole = [] then [] else sign @ whole @ frac)"

definition spec_match :: "string \<Rightarrow> (string \<times> string) option" where
  "spec_match s =
     (if spec_number s = [] then None
      else Some (spec_number s, takeWhile isalpha (drop (length (spec_number s)) s)))"

fun spec_search :: "string \<Rightarrow> (string \<times> string) option" where
  "spec_search [] = None"
| "spec_search (c # cs) =
     (case spec_match (c # cs) of
        Some m \<Rightarrow> Some m
      | None \<Rightarrow> spec_search cs)"

definition get_em_spec :: "string \<Rightarrow> int option" where
  "get_em_spec len =
     (case spec_search len of
        None \<Rightarrow> None
      | Some (number, unit) \<Rightarrow>
          (case float number of
             Inl e \<Rightarrow> None
           | Inr value \<Rightarrow>
               (case round_float (if unit \<in> {''em'', ''rem'', ''qem''} then value
                                  else truediv value 8) of
                  Inl e \<Rightarrow> None
                | Inr n \<Rightarrow> Some n)))"

text \<open>What \<^verbatim>\<open>_get_em\<close> returns, with every exception read as no result.\<close>

definition returned :: "error + int \<Rightarrow> int option" where
  "returned r = (case r of Inl e \<Rightarrow> None | Inr n \<Rightarrow> Some n)"

section \<open>Evaluation on concrete inputs\<close>

lemma floor_rat_numeral_div [simp]:
  "\<lfloor>(numeral a :: rat) / numeral b\<rfloor> = numeral a div numeral b"
  using floor_divide_of_int_eq [of "numeral a" "numeral b", where ?'a = rat] by simp

lemma floor_rat_one_div [simp]: "\<lfloor>(1 :: rat) / numeral b\<rfloor> = 1 div numeral b"
  using floor_divide_of_int_eq [of 1 "numeral b", where ?'a = rat] by simp

lemma floor_rat_neg_div [simp]:
  "\<lfloor>- ((numeral a :: rat) / numeral b)\<rfloor> = - numeral a div numeral b"
  using floor_divide_of_int_eq [of "- numeral a" "numeral b", where ?'a = rat] by simp

lemma ceiling_rat_numeral_div [simp]:
  "\<lceil>(numeral a :: rat) / numeral b\<rceil> = - (- numeral a div numeral b)"
  using ceiling_divide_eq_div [of "numeral a" "numeral b", where ?'a = rat] by simp

lemma bit_length_numeral [simp]:
  "bit_length 0 = 0"
  "bit_length 1 = 1"
  "bit_length (Suc 0) = 1"
  "bit_length (numeral Num.One) = 1"
  "bit_length (numeral (Num.Bit0 k)) = Suc (bit_length (numeral k))"
  "bit_length (numeral (Num.Bit1 k)) = Suc (bit_length (numeral k))"
  by (simp_all add: bit_length.simps [of 0] bit_length.simps [of 1]
      bit_length.simps [of "Suc 0"] bit_length.simps [of "numeral Num.One"]
      bit_length.simps [of "numeral (Num.Bit0 k)"] bit_length.simps [of "numeral (Num.Bit1 k)"])

lemma char_of_eq_iff: "char_of (n :: nat) = c \<longleftrightarrow> n mod 256 = of_char c"
  by (metis of_char_of char_of_char)

lemmas char_defs =
  code_def isspace_def isdigit_def isword_def isnumchar_def lower_char_def isalpha_def
  char_of_eq_iff

lemmas float_defs =
  float_def decimal_def digit_value_def binary64_def exponent_def pow2_def
  round_half_even_def truediv_def round_float_def Let_def

lemmas resolve_defs =
  get_style_attribute_def lower_def style_directive_step_def split1_def strip_def
  try_apply_style_def handler_name_def getattr_def

lemma clone_id: "clone e = e"
  by (simp add: clone_def)

lemma binary64_tenth: "binary64 (1 / 10) = Finite (3602879701896397 / 36028797018963968)"
  by (simp add: float_defs)

lemma get_em_1em: "get_em ''1em'' = Inr 1"
  by (simp add: get_em_def RE_UNIT_match_def char_defs float_defs)

lemma get_em_2em: "get_em ''2em'' = Inr 2"
  by (simp add: get_em_def RE_UNIT_match_def char_defs float_defs)

lemma get_em_16px: "get_em ''16px'' = Inr 2"
  by (simp add: get_em_def RE_UNIT_match_def char_defs float_defs)

lemma get_em_minus_px: "get_em ''-px'' = Inl ValueError"
  by (simp add: get_em_def RE_UNIT_match_def char_defs float_defs)

lemma get_em_minus_16px: "get_em ''-16px'' = Inr (- 2)"
  by (simp add: get_em_def RE_UNIT_match_def char_defs float_defs)

lemma get_em_16: "get_em ''16'' = Inr 0"
  by (simp add: get_em_def RE_UNIT_match_def char_defs float_defs)

lemma get_em_8: "get_em ''8'' = Inl AttributeError"
  by (simp add: get_em_def RE_UNIT_match_def char_defs float_defs)

lemma get_em_spec_16: "get_em_spec ''16'' = Some 2"
  by (simp add: get_em_spec_def spec_match_def spec_number_def char_defs float_defs)

section \<open>Properties of the string methods and of the loop\<close>

lemma split_nonempty: "split sep s \<noteq> []"
  by (induction s) (auto split: list.splits)

lemma split_append: "split sep (a @ sep # b) = split sep a @ split sep b"
  by (induction a) (auto simp: split_nonempty split: list.splits)

lemma replace_char: "replace [a] [b] s = map (\<lambda>c. if c = a then b else c) s"
  by (induction s) auto

lemma lower_semicolon: "lower_char CHR '';'' = CHR '';''"
  by (simp add: char_defs)

lemma lower_char_idem: "lower_char (lower_char c) = lower_char c"
  by (auto simp add: lower_char_def code_def)

lemma lower_idem: "lower (lower s) = lower s"
  by (simp add: lower_def lower_char_idem)

lemma style_directives_append:
  "style_directives (xs @ ys) e =
     (case style_directives xs e of Inl err \<Rightarrow> Inl err | Inr e' \<Rightarrow> style_directives ys e')"
  by (induction xs arbitrary: e) (auto split: sum.splits)

section \<open>The store: what a resolution can write\<close>

lemma handlers_st_take:
  assumes "n \<le> c"
  shows "take n (snd (attr_display_st v c st)) = take n st"
    and "take n (snd (attr_margin_top_st v c st)) = take n st"
    and "take n (snd (attr_margin_bottom_st v c st)) = take n st"
    and "take n (snd (attr_padding_left_st v c st)) = take n st"
  using assms
  by (auto simp add: attr_display_st_def attr_margin_top_st_def attr_margin_bottom_st_def
      attr_padding_left_st_def split: sum.splits)

lemma getattr_st_cases:
  assumes "getattr_st name = Inr f"
  shows "f = attr_display_st \<or> f = attr_margin_top_st \<or> f = attr_margin_bottom_st \<or>
         f = attr_padding_left_st"
  using assms by (auto simp add: getattr_st_def split: if_splits)

lemma try_apply_style_st_take:
  assumes "n \<le> c"
  shows "take n (snd (try_apply_style_st key v c st)) = take n st"
proof (cases "getattr_st (handler_name key)")
  case (Inl e)
  then show ?thesis by (cases e) (simp_all add: try_apply_style_st_def)
next
  case (Inr f)
  from getattr_st_cases [OF Inr] handlers_st_take [OF assms, of v st]
  have "take n (snd (f v c st)) = take n st" by auto
  with Inr show ?thesis
    by (auto simp add: try_apply_style_st_def split: prod.splits sum.splits error.splits)
qed

lemma style_directive_step_st_take:
  "n \<le> c \<Longrightarrow> take n (snd (style_directive_step_st d c st)) = take n st"
  by (simp add: style_directive_step_st_def try_apply_style_st_take split: prod.splits)

lemma style_directives_st_take:
  "n \<le> c \<Longrightarrow> take n (snd (style_directives_st ds c st)) = take n st"
proof (induction ds arbitrary: st)
  case Nil
  then show ?case by simp
next
  case (Cons d ds)
  obtain res st' where step: "style_directive_step_st d c st = (res, st')"
    by (cases "style_directive_step_st d c st")
  from style_directive_step_st_take [OF Cons.prems, of d st] step
  have st': "take n st' = take n st" by simp
  show ?case
  proof (cases res)
    case (Inl e)
    with step st' show ?thesis by simp
  next
    case (Inr u)
    with step st' Cons.IH [OF Cons.prems, of st'] show ?thesis by simp
  qed
qed

lemma get_style_attribute_st_frame:
  "take (length st) (snd (get_style_attribute_st style html_element st)) = st"
proof -
  obtain res st2 where loop:
    "style_directives_st (split CHR '';'' (lower style)) (length st)
       (st @ [clone (st ! html_element)]) = (res, st2)"
    by (cases "style_directives_st (split CHR '';'' (lower style)) (length st)
       (st @ [clone (st ! html_element)])")
  from style_directives_st_take [of "length st" "length st" "split CHR '';'' (lower style)"
      "st @ [clone (st ! html_element)]"] loop
  have "take (length st) st2 = st" by simp
  with loop show ?thesis
    by (cases res) (simp_all add: get_style_attribute_st_def clone_st_def)
qed

lemma DEFAULT_CSS_refs_bound:
  "map_of DEFAULT_CSS_refs tag_name = Some r \<Longrightarrow> r < length module_store"
  by (auto simp add: DEFAULT_CSS_refs_def module_store_def dest!: map_of_SomeD set_zip_rightD)

lemma DEFAULT_CSS_get_prefix:
  assumes "take (length module_store) st = module_store"
  shows "DEFAULT_CSS_get tag_name st = DEFAULT_CSS_get tag_name module_store"
proof (cases "map_of DEFAULT_CSS_refs tag_name")
  case None
  then show ?thesis by (simp add: DEFAULT_CSS_get_def)
next
  case (Some r)
  then have "r < length module_store" by (rule DEFAULT_CSS_refs_bound)
  then have "st ! r = module_store ! r"
    using assms by (metis nth_take)
  with Some show ?thesis by (simp add: DEFAULT_CSS_get_def)
qed

lemma getattr_both:
  "(getattr name = Inl AttributeError \<and> getattr_st name = Inl AttributeError) \<or>
   (getattr name = Inr attr_display \<and> getattr_st name = Inr attr_display_st) \<or>
   (getattr name = Inr attr_margin_top \<and> getattr_st name = Inr attr_margin_top_st) \<or>
   (getattr name = Inr attr_margin_bottom \<and> getattr_st name = Inr attr_margin_bottom_st) \<or>
   (getattr name = Inr attr_padding_left \<and> getattr_st name = Inr attr_padding_left_st)"
  by (simp add: getattr_def getattr_st_def)

lemma try_apply_style_st_pure:
  assumes "c < length st"
  shows "try_apply_style_st key v c st =
     (case try_apply_style key v (st ! c) of
        Inl e \<Rightarrow> (Inl e, st)
      | Inr e' \<Rightarrow> (Inr (), st[c := e']))"
  using getattr_both [of "handler_name key"]
proof (elim disjE conjE)
  assume "getattr (handler_name key) = Inl AttributeError"
    "getattr_st (handler_name key) = Inl AttributeError"
  then show ?thesis by (simp add: try_apply_style_st_def try_apply_style_def)
next
  assume "getattr (handler_name key) = Inr attr_display"
    "getattr_st (handler_name key) = Inr attr_display_st"
  then show ?thesis
    by (simp add: try_apply_style_st_def try_apply_style_def attr_display_st_def
        attr_display_def)
next
  assume "getattr (handler_name key) = Inr attr_margin_top"
    "getattr_st (handler_name key) = Inr attr_margin_top_st"
  then show ?thesis
    by (simp add: try_apply_style_st_def try_apply_style_def attr_margin_top_st_def
        attr_margin_top_def split: sum.splits error.splits)
next
  assume "getattr (handler_name key) = Inr attr_margin_bottom"
    "getattr_st (handler_name key) = Inr attr_margin_bottom_st"
  then show ?thesis
    by (simp add: try_apply_style_st_def try_apply_style_def attr_margin_bottom_st_def
        attr_margin_bottom_def split: sum.splits error.splits)
next
  assume "getattr (handler_name key) = Inr attr_padding_left"
    "getattr_st (handler_name key) = Inr attr_padding_left_st"
  then show ?thesis
    by (simp add: try_apply_style_st_def try_apply_style_def attr_padding_left_st_def
        attr_padding_left_def split: sum.splits error.splits)
qed

lemma style_directive_step_st_pure:
  assumes "c < length st"
  shows "style_directive_step_st d c st =
     (case style_directive_step d (st ! c) of
        Inl e \<Rightarrow> (Inl e, st)
      | Inr e' \<Rightarrow> (Inr (), st[c := e']))"
  using assms
  by (simp add: style_directive_step_st_def style_directive_step_def
      try_apply_style_st_pure split: prod.splits)

lemma style_directives_st_pure:
  assumes "c < length st"
  shows "fst (style_directives_st ds c st) =
           (case style_directives ds (st ! c) of Inl e \<Rightarrow> Inl e | Inr e' \<Rightarrow> Inr ())"
    and "style_directives ds (st ! c) = Inr e' \<Longrightarrow>
           snd (style_directives_st ds c st) = st[c := e']"
  using assms
proof (induction ds arbitrary: st)
  case Nil
  { case 1 show ?case by simp }
  { case 2
    then have "e' = st ! c" by simp
    then show ?case by simp }
next
  case (Cons d ds)
  { case 1
    show ?case
      using 1 Cons.IH(1) [of "st[c := e1]" for e1]
      by (simp add: style_directive_step_st_pure split: sum.splits) }
  { case 2
    then show ?case
      using Cons.IH(2) [of "st[c := e1]" for e1]
      by (auto simp add: style_directive_step_st_pure split: sum.splits) }
qed

lemma get_style_attribute_st_pure:
  assumes "html_element < length st"
  shows "fst (get_style_attribute_st style html_element st) =
           (case get_style_attribute style (st ! html_element) of
              Inl e \<Rightarrow> Inl e | Inr e' \<Rightarrow> Inr (length st))"
    and "get_style_attribute style (st ! html_element) = Inr e' \<Longrightarrow>
           snd (get_style_attribute_st style html_element st) = st @ [e']"
proof -
  let ?st1 = "st @ [clone (st ! html_element)]"
  let ?ds = "split CHR '';'' (lower style)"
  obtain res st2 where loop: "style_directives_st ?ds (length st) ?st1 = (res, st2)"
    by (cases "style_directives_st ?ds (length st) ?st1")
  have c: "length st < length ?st1" by simp
  have res: "res = (case style_directives ?ds (clone (st ! html_element)) of
                Inl e \<Rightarrow> Inl e | Inr e' \<Rightarrow> Inr ())"
    using style_directives_st_pure(1) [OF c, of ?ds] loop by simp
  have eq: "get_style_attribute_st style html_element st =
      (case res of Inl e \<Rightarrow> (Inl e, st2) | Inr u \<Rightarrow> (Inr (length st), st2))"
    using loop by (simp add: get_style_attribute_st_def clone_st_def)
  show "fst (get_style_attribute_st style html_element st) =
           (case get_style_attribute style (st ! html_element) of
              Inl e \<Rightarrow> Inl e | Inr e' \<Rightarrow> Inr (length st))"
    unfolding eq res get_style_attribute_def by (simp split: sum.splits)
  show "snd (get_style_attribute_st style html_element st) = st @ [e']"
    if "get_style_attribute style (st ! html_element) = Inr e'"
  proof -
    from that have pure: "style_directives ?ds (?st1 ! length st) = Inr e'"
      by (simp add: get_style_attribute_def)
    from style_directives_st_pure(2) [OF c pure] loop have "st2 = st @ [e']" by simp
    moreover from pure res have "res = Inr ()" by simp
    ultimately show ?thesis unfolding eq by simp
  qed
qed

section \<open>The sign of a converted length\<close>

lemma RE_UNIT_backtrack_group1:
  "RE_UNIT_backtrack k s = Some (g1, g2) \<Longrightarrow> set g1 \<subseteq> set s"
  by (induction k) (auto split: if_splits dest: in_set_takeD)

lemma RE_UNIT_search_group1:
  "RE_UNIT_search s = Some (g1, g2) \<Longrightarrow> set g1 \<subseteq> set s"
proof (induction s)
  case Nil
  then show ?case by simp
next
  case (Cons c cs)
  show ?case
  proof (cases "RE_UNIT_match (c # cs)")
    case None
    with Cons show ?thesis by auto
  next
    case (Some m)
    with Cons.prems have "RE_UNIT_backtrack (length (takeWhile isnumchar (c # cs))) (c # cs) =
        Some (g1, g2)"
      by (simp add: RE_UNIT_match_def)
    then show ?thesis by (rule RE_UNIT_backtrack_group1)
  qed
qed

lemma pow2_pos: "0 < pow2 e"
  by (simp add: pow2_def)

lemma round_half_even_nonneg: "0 \<le> x \<Longrightarrow> 0 \<le> round_half_even x"
  by (simp add: round_half_even_def Let_def)

lemma binary64_nonneg:
  assumes "0 \<le> q"
  shows "binary64 q \<noteq> NegInf" and "binary64 q = Finite a \<Longrightarrow> 0 \<le> a"
proof -
  show "binary64 q \<noteq> NegInf"
    using assms by (simp add: binary64_def Let_def)
  show "0 \<le> a" if "binary64 q = Finite a"
  proof (cases "q = 0")
    case True
    with that show ?thesis by (simp add: binary64_def)
  next
    case False
    with assms have pos: "0 < q" by simp
    define quantum where "quantum = pow2 (max (exponent \<bar>q\<bar>) (- 1022) - 52)"
    have "0 \<le> \<bar>q\<bar> / quantum"
      using pow2_pos [of "max (exponent \<bar>q\<bar>) (- 1022) - 52"] by (simp add: quantum_def)
    then have "0 \<le> rat_of_int (round_half_even (\<bar>q\<bar> / quantum)) * quantum"
      using round_half_even_nonneg pow2_pos [of "max (exponent \<bar>q\<bar>) (- 1022) - 52"]
      by (simp add: quantum_def)
    with that pos False show ?thesis
      by (simp add: binary64_def Let_def quantum_def split: if_splits)
  qed
qed

lemma startswith_minus: "startswith s ''-'' \<Longrightarrow> CHR ''-'' \<in> set s"
  by (cases s) auto

lemma float_nonneg:
  assumes "float g = Inr x" and "CHR ''-'' \<notin> set g"
  shows "x \<noteq> NegInf" and "x = Finite a \<Longrightarrow> 0 \<le> a"
proof -
  define q :: rat where
    "q = of_nat (decimal (takeWhile isdigit g @ drop 1 (dropWhile isdigit g))) /
           10 ^ length (drop 1 (dropWhile isdigit g))"
  from assms(2) have ns: "\<not> startswith g ''-''"
    using startswith_minus by blast
  have "0 \<le> q" by (simp add: q_def)
  moreover from assms(1) ns have "x = binary64 q"
    by (simp add: float_def Let_def q_def split: if_splits)
  ultimately show "x \<noteq> NegInf" and "x = Finite a \<Longrightarrow> 0 \<le> a"
    using binary64_nonneg by auto
qed

lemma get_em_nonneg:
  assumes "get_em v = Inr n" and "CHR ''-'' \<notin> set v"
  shows "0 \<le> n"
proof -
  from assms(1) obtain g1 unit x where m: "RE_UNIT_search v = Some (g1, unit)"
    and f: "float g1 = Inr x"
    and r: "(if unit \<notin> {''em'', ''qem'', ''rem''} then round_float (truediv x 8)
            else round_float x) = Inr n"
    by (auto simp add: get_em_def split: option.splits sum.splits)
  from RE_UNIT_search_group1 [OF m] assms(2) have "CHR ''-'' \<notin> set g1" by auto
  note nn = float_nonneg [OF f this]
  show ?thesis
  proof (cases x)
    case (Finite a)
    with nn have a: "0 \<le> a" by simp
    show ?thesis
    proof (cases "unit \<notin> {''em'', ''qem'', ''rem''}")
      case True
      with r Finite have "round_float (binary64 (a / 8)) = Inr n"
        by (simp add: truediv_def)
      then obtain b where b: "binary64 (a / 8) = Finite b" "n = round_half_even b"
        by (auto simp add: round_float_def split: pyfloat.splits)
      from a have "0 \<le> a / 8" by simp
      from binary64_nonneg(2) [OF this b(1)] b(2) show ?thesis
        by (simp add: round_half_even_nonneg)
    next
      case False
      with r Finite a show ?thesis
        by (auto simp add: round_float_def round_half_even_nonneg)
    qed
  next
    case PosInf
    with r show ?thesis
      by (simp add: round_float_def truediv_def split: if_splits)
  next
    case NegInf
    with nn show ?thesis by simp
  qed
qed

lemma strip_subset: "set (strip v) \<subseteq> set v"
  by (auto simp add: strip_def dest!: set_dropWhileD)

lemma lower_char_eq_punct:
  "lower_char c = CHR '';'' \<longleftrightarrow> c = CHR '';''"
  "lower_char c = CHR '':'' \<longleftrightarrow> c = CHR '':''"
  "lower_char c = CHR ''-'' \<longleftrightarrow> c = CHR ''-''"
  by (auto simp add: lower_char_def code_def char_of_eq_iff)

lemma minus_eq_lower_char: "CHR ''-'' = lower_char c \<longleftrightarrow> c = CHR ''-''"
  using lower_char_eq_punct(3) [of c] by auto

lemma split_lower: "split CHR '';'' (lower s) = map lower (split CHR '';'' s)"
  by (induction s) (auto simp add: lower_def lower_char_eq_punct split_nonempty split: list.splits)

lemma split1_lower: "snd (split1 CHR '':'' (lower d)) = lower (snd (split1 CHR '':'' d))"
  by (simp add: split1_def lower_def dropWhile_map comp_def lower_char_eq_punct drop_map)

lemma minus_in_lower: "CHR ''-'' \<in> set (lower v) \<longleftrightarrow> CHR ''-'' \<in> set v"
  by (induction v) (auto simp add: lower_def lower_char_eq_punct minus_eq_lower_char)

lemma try_apply_style_nonneg:
  assumes "try_apply_style key v e = Inr e'" and "CHR ''-'' \<notin> set v"
    and "0 \<le> margin_before e \<and> 0 \<le> margin_after e \<and> 0 \<le> padding e"
  shows "0 \<le> margin_before e' \<and> 0 \<le> margin_after e' \<and> 0 \<le> padding e'"
  using getattr_both [of "handler_name key"]
proof (elim disjE conjE)
  assume "getattr (handler_name key) = Inl AttributeError"
  with assms show ?thesis by (simp add: try_apply_style_def)
next
  assume "getattr (handler_name key) = Inr attr_display"
  with assms show ?thesis
    by (auto simp add: try_apply_style_def attr_display_def split: if_splits)
next
  assume "getattr (handler_name key) = Inr attr_margin_top"
  with assms get_em_nonneg [of v] show ?thesis
    by (auto simp add: try_apply_style_def attr_margin_top_def split: sum.splits error.splits)
next
  assume "getattr (handler_name key) = Inr attr_margin_bottom"
  with assms get_em_nonneg [of v] show ?thesis
    by (auto simp add: try_apply_style_def attr_margin_bottom_def split: sum.splits error.splits)
next
  assume "getattr (handler_name key) = Inr attr_padding_left"
  with assms get_em_nonneg [of v] show ?thesis
    by (auto simp add: try_apply_style_def attr_padding_left_def split: sum.splits error.splits)
qed

lemma style_directive_step_nonneg:
  assumes "style_directive_step d e = Inr e'"
    and "CHR ''-'' \<notin> set (snd (split1 CHR '':'' d))"
    and "0 \<le> margin_before e \<and> 0 \<le> margin_after e \<and> 0 \<le> padding e"
  shows "0 \<le> margin_before e' \<and> 0 \<le> margin_after e' \<and> 0 \<le> padding e'"
proof (cases "CHR '':'' \<in> set d")
  case False
  with assms show ?thesis by (simp add: style_directive_step_def)
next
  case True
  obtain key v where kv: "split1 CHR '':'' d = (key, v)" by (cases "split1 CHR '':'' d")
  with assms(2) strip_subset [of v] have a: "CHR ''-'' \<notin> set (strip v)" by auto
  from True kv assms(1) have b: "try_apply_style (strip key) (strip v) e = Inr e'"
    by (simp add: style_directive_step_def)
  show ?thesis by (rule try_apply_style_nonneg [OF b a assms(3)])
qed

lemma style_directives_nonneg:
  assumes "style_directives ds e = Inr e'"
    and "\<forall>d\<in>set ds. CHR ''-'' \<notin> set (snd (split1 CHR '':'' d))"
    and "0 \<le> margin_before e \<and> 0 \<le> margin_after e \<and> 0 \<le> padding e"
  shows "0 \<le> margin_before e' \<and> 0 \<le> margin_after e' \<and> 0 \<le> padding e'"
  using assms
proof (induction ds arbitrary: e)
  case Nil
  then show ?case by simp
next
  case (Cons d ds)
  from Cons.prems(1) obtain e1 where step: "style_directive_step d e = Inr e1"
    and rest: "style_directives ds e1 = Inr e'"
    by (auto split: sum.splits)
  from Cons.prems(2) have d: "CHR ''-'' \<notin> set (snd (split1 CHR '':'' d))"
    and ds: "\<forall>d\<in>set ds. CHR ''-'' \<notin> set (snd (split1 CHR '':'' d))"
    by simp_all
  from style_directive_step_nonneg [OF step d Cons.prems(3)]
  show ?case by (rule Cons.IH [OF rest ds])
qed

section \<open>The pattern and the grammar of the specification\<close>

lemma isdigit_facts:
  assumes "isdigit c"
  shows "isnumchar c" and "c \<noteq> CHR ''-''" and "c \<noteq> CHR ''.''"
  using assms by (auto simp add: isnumchar_def isdigit_def code_def)

lemma isalpha_facts:
  assumes "isalpha c"
  shows "\<not> isnumchar c" and "\<not> isdigit c" and "isword c"
    and "c \<noteq> CHR ''-''" and "c \<noteq> CHR ''.''"
  using assms by (auto simp add: isalpha_def isnumchar_def isdigit_def isword_def code_def)

lemma not_numchar_facts:
  assumes "\<not> isnumchar c"
  shows "\<not> isdigit c" and "c \<noteq> CHR ''-''"
  using assms by (auto simp add: isnumchar_def)

lemma takeWhile_stop:
  assumes "\<forall>x\<in>set xs. P x" and "ys = [] \<or> \<not> P (hd ys)"
  shows "takeWhile P (xs @ ys) = xs"
  using assms by (cases ys) (simp_all add: takeWhile_append2)

lemma RE_UNIT_match_number_unit:
  assumes "num \<noteq> []" and "\<forall>c\<in>set num. isnumchar c"
    and "unit \<noteq> []" and "\<forall>c\<in>set unit. isalpha c"
    and "rest = [] \<or> \<not> isword (hd rest)"
  shows "RE_UNIT_match (num @ unit @ rest) = Some (num, unit)"
proof -
  from assms(3,4) have "\<not> isnumchar (hd (unit @ rest))"
    by (cases unit) (simp_all add: isalpha_facts)
  with assms(2) have run: "takeWhile isnumchar (num @ unit @ rest) = num"
    by (intro takeWhile_stop) simp_all
  from assms(4) have "\<forall>c\<in>set unit. isword c"
    by (simp add: isalpha_facts)
  with assms(5) have word: "takeWhile isword (unit @ rest) = unit"
    by (intro takeWhile_stop) simp_all
  from assms(1) obtain k where k: "length num = Suc k"
    by (cases num) simp_all
  from k have d: "drop (Suc k) (num @ unit @ rest) = unit @ rest"
    and tk: "take (Suc k) (num @ unit @ rest) = num"
    by simp_all
  have "RE_UNIT_backtrack (Suc k) (num @ unit @ rest) = Some (num, unit)"
    by (simp only: RE_UNIT_backtrack.simps d tk word) (simp add: assms(3))
  with run k show ?thesis by (simp add: RE_UNIT_match_def)
qed

lemma RE_UNIT_search_skip:
  assumes "\<forall>c\<in>set skipped. \<not> isnumchar c"
  shows "RE_UNIT_search (skipped @ t) = RE_UNIT_search t"
  using assms by (induction skipped) (simp_all add: RE_UNIT_match_def)

lemma RE_UNIT_search_match:
  assumes "RE_UNIT_match t = Some m"
  shows "RE_UNIT_search t = Some m"
proof (cases t)
  case Nil
  with assms show ?thesis by (simp add: RE_UNIT_match_def)
next
  case (Cons c cs)
  with assms show ?thesis by simp
qed

lemma spec_number_number_unit:
  assumes "sign = [] \<or> sign = ''-''"
    and "whole \<noteq> []" and "\<forall>c\<in>set whole. isdigit c"
    and "\<forall>c\<in>set ds. isdigit c"
    and "fraction = (if ds = [] then [] else CHR ''.'' # ds)"
    and "unit \<noteq> []" and "\<forall>c\<in>set unit. isalpha c"
  shows "spec_number (sign @ whole @ fraction @ unit @ rest) = sign @ whole @ fraction"
proof -
  let ?t = "sign @ whole @ fraction @ unit @ rest"
  from assms(2,3) have "hd whole \<noteq> CHR ''-''"
    by (cases whole) (simp_all add: isdigit_facts)
  with assms(1,2) have sign: "(if startswith ?t ''-'' then ''-'' else []) = sign"
    by (cases whole) auto
  have dot: "\<not> isdigit CHR ''.''"
    by (simp add: isdigit_def code_def)
  have nd: "fraction @ unit @ rest = [] \<or> \<not> isdigit (hd (fraction @ unit @ rest))"
    using assms(5,6,7) dot by (cases unit) (auto simp add: isalpha_facts)
  from assms(3) nd have whole: "takeWhile isdigit (whole @ fraction @ unit @ rest) = whole"
    by (intro takeWhile_stop) simp_all
  have fr:
    "(if startswith (fraction @ unit @ rest) ''.'' \<and>
         takeWhile isdigit (drop 1 (fraction @ unit @ rest)) \<noteq> []
      then CHR ''.'' # takeWhile isdigit (drop 1 (fraction @ unit @ rest)) else []) = fraction"
  proof (cases "ds = []")
    case True
    with assms(5,6,7) show ?thesis
      by (cases unit) (simp_all add: isalpha_facts)
  next
    case False
    from assms(6,7) have "unit @ rest = [] \<or> \<not> isdigit (hd (unit @ rest))"
      by (cases unit) (simp_all add: isalpha_facts)
    with assms(4) have "takeWhile isdigit (ds @ unit @ rest) = ds"
      by (intro takeWhile_stop) simp_all
    with False assms(5) show ?thesis by simp
  qed
  have dropsign: "drop (length sign) ?t = whole @ fraction @ unit @ rest"
    by simp
  have after: "drop (length sign + length whole) ?t = fraction @ unit @ rest"
    by simp
  show ?thesis
    unfolding spec_number_def Let_def sign dropsign whole after fr
    using assms(2) by simp
qed

lemma spec_search_skip:
  assumes "\<forall>c\<in>set skipped. \<not> isnumchar c"
  shows "spec_search (skipped @ t) = spec_search t"
  using assms
  by (induction skipped) (simp_all add: spec_match_def spec_number_def not_numchar_facts)

lemma spec_search_match:
  assumes "spec_match t = Some m"
  shows "spec_search t = Some m"
proof (cases t)
  case Nil
  with assms show ?thesis by (simp add: spec_match_def spec_number_def)
next
  case (Cons c cs)
  with assms show ?thesis by simp
qed

section \<open>The claims\<close>

text \<open>
  C5. Resolving the empty style string returns a record equal to the baseline
  in all eight fields, and \<^verbatim>\<open>clone\<close> returns a record whose eight fields are
  those of its source.
\<close>

theorem empty_style_is_identity:
  "get_style_attribute [] baseline = Inr baseline \<and>
   clone baseline = baseline \<and>
   tag (clone baseline) = tag baseline \<and> prefix (clone baseline) = prefix baseline \<and>
   suffix (clone baseline) = suffix baseline \<and> display (clone baseline) = display baseline \<and>
   margin_before (clone baseline) = margin_before baseline \<and>
   margin_after (clone baseline) = margin_after baseline \<and>
   padding (clone baseline) = padding baseline \<and>
   whitespace (clone baseline) = whitespace baseline"
  by (simp add: get_style_attribute_def lower_def style_directive_step_def clone_def)

text \<open>
  C10. The rounding of the length conversion is round-half-to-even:
  \<^verbatim>\<open>_get_em('4px')\<close> is 0, \<^verbatim>\<open>_get_em('12px')\<close> is 2, \<^verbatim>\<open>_get_em('2.5em')\<close> is 2
  and \<^verbatim>\<open>_get_em('3.5em')\<close> is 4.
\<close>

theorem get_em_rounds_half_to_even:
  "get_em ''4px'' = Inr 0 \<and> get_em ''12px'' = Inr 2 \<and>
   get_em ''2.5em'' = Inr 2 \<and> get_em ''3.5em'' = Inr 4"
  by (simp add: get_em_def RE_UNIT_match_def char_defs float_defs)

text \<open>
  C7. The display handler maps the value \<^verbatim>\<open>block\<close> to \<^verbatim>\<open>Display.block\<close>,
  \<^verbatim>\<open>none\<close> to \<^verbatim>\<open>Display.none\<close> and every other value to \<^verbatim>\<open>Display.inline\<close>,
  touching no other field; for every baseline, resolving
  \<^verbatim>\<open>display:inline-block\<close> yields the baseline with display inline.
\<close>

theorem display_handler_falls_back_to_inline:
  "attr_display value e =
     Inr (e\<lparr>display := (if value = ''block'' then block
                          else if value = ''none'' then none else inline)\<rparr>) \<and>
   get_style_attribute ''display:inline-block'' baseline = Inr (baseline\<lparr>display := inline\<rparr>) \<and>
   get_style_attribute ''display:inline'' baseline = Inr (baseline\<lparr>display := inline\<rparr>)"
  by (simp add: resolve_defs char_defs attr_display_def clone_id)

text \<open>
  C9. The whole style string is lower-cased before it is split, so a style
  string and its lower-cased form resolve alike; for every baseline,
  resolving \<^verbatim>\<open>DISPLAY: NONE\<close> yields the baseline with display none.
\<close>

theorem resolution_is_case_insensitive:
  "get_style_attribute (lower style) baseline = get_style_attribute style baseline \<and>
   get_style_attribute ''DISPLAY: NONE'' baseline = Inr (baseline\<lparr>display := none\<rparr>)"
proof
  show "get_style_attribute (lower style) baseline = get_style_attribute style baseline"
    by (simp add: get_style_attribute_def lower_idem)
  show "get_style_attribute ''DISPLAY: NONE'' baseline = Inr (baseline\<lparr>display := none\<rparr>)"
    by (simp add: resolve_defs char_defs attr_display_def clone_id)
qed

text \<open>
  C6. Declarations are applied from left to right: resolving \<open>s1;s2\<close> is
  resolving \<open>s1\<close> and then resolving \<open>s2\<close> on the outcome, so a later
  declaration overwrites an earlier one for the same property; for every
  baseline, resolving \<^verbatim>\<open>margin-top:1em;margin-top:2em\<close> yields \<open>margin_before = 2\<close>
  and changes nothing else.
\<close>

theorem later_declaration_wins:
  "get_style_attribute (s1 @ '';'' @ s2) baseline =
     (case get_style_attribute s1 baseline of
        Inl e \<Rightarrow> Inl e
      | Inr r \<Rightarrow> get_style_attribute s2 r) \<and>
   get_style_attribute ''margin-top:1em;margin-top:2em'' baseline =
     Inr (baseline\<lparr>margin_before := 2\<rparr>)"
proof
  show "get_style_attribute (s1 @ '';'' @ s2) baseline =
     (case get_style_attribute s1 baseline of
        Inl e \<Rightarrow> Inl e
      | Inr r \<Rightarrow> get_style_attribute s2 r)"
    by (auto simp add: get_style_attribute_def lower_def lower_semicolon split_append
        style_directives_append clone_id split: sum.splits)
  show "get_style_attribute ''margin-top:1em;margin-top:2em'' baseline =
     Inr (baseline\<lparr>margin_before := 2\<rparr>)"
    by (simp add: resolve_defs char_defs attr_margin_top_def clone_id get_em_1em get_em_2em)
qed

text \<open>
  C8. Key normalization removes the text \<^verbatim>\<open>-webkit-\<close> wherever it stands in
  the key and turns every \<^verbatim>\<open>-\<close> that is left into \<^verbatim>\<open>_\<close>; the aliases
  \<^verbatim>\<open>margin_before\<close>, \<^verbatim>\<open>margin_after\<close> and \<^verbatim>\<open>padding_start\<close> name the handlers of
  \<^verbatim>\<open>margin_top\<close>, \<^verbatim>\<open>margin_bottom\<close> and \<^verbatim>\<open>padding_left\<close>; for every baseline,
  resolving \<^verbatim>\<open>-webkit-margin-before:2em\<close> yields \<open>margin_before = 2\<close>.
\<close>

theorem vendor_prefix_and_aliases:
  "handler_name key =
     ''_attr_'' @ map (\<lambda>c. if c = CHR ''-'' then CHR ''_'' else c) (replace ''-webkit-'' [] key) \<and>
   handler_name ''-webkit-margin-before'' = ''_attr_margin_before'' \<and>
   handler_name ''margin-webkit--before'' = ''_attr_margin_before'' \<and>
   getattr ''_attr_margin_before'' = getattr ''_attr_margin_top'' \<and>
   getattr ''_attr_margin_after'' = getattr ''_attr_margin_bottom'' \<and>
   getattr ''_attr_padding_start'' = getattr ''_attr_padding_left'' \<and>
   get_style_attribute ''-webkit-margin-before:2em'' baseline =
     Inr (baseline\<lparr>margin_before := 2\<rparr>)"
proof (intro conjI)
  show "handler_name key =
     ''_attr_'' @ map (\<lambda>c. if c = CHR ''-'' then CHR ''_'' else c) (replace ''-webkit-'' [] key)"
    by (simp only: handler_name_def replace_char)
  show "handler_name ''-webkit-margin-before'' = ''_attr_margin_before''"
    by (simp add: handler_name_def)
  show "handler_name ''margin-webkit--before'' = ''_attr_margin_before''"
    by (simp add: handler_name_def)
  show "getattr ''_attr_margin_before'' = getattr ''_attr_margin_top''"
    by (simp add: getattr_def)
  show "getattr ''_attr_margin_after'' = getattr ''_attr_margin_bottom''"
    by (simp add: getattr_def)
  show "getattr ''_attr_padding_start'' = getattr ''_attr_padding_left''"
    by (simp add: getattr_def)
  show "get_style_attribute ''-webkit-margin-before:2em'' baseline =
     Inr (baseline\<lparr>margin_before := 2\<rparr>)"
    by (simp add: resolve_defs char_defs attr_margin_top_def clone_id get_em_2em)
qed

text \<open>
  C1. Resolution is claimed never to raise. On the style \<^verbatim>\<open>margin-top:-px\<close>
  the pattern matches with the number \<^verbatim>\<open>-\<close>, \<^verbatim>\<open>float('-')\<close> raises
  \<^verbatim>\<open>ValueError\<close>, and the \<^verbatim>\<open>except AttributeError\<close> clause lets it through: the
  call raises for every baseline. A value without any match (\<^verbatim>\<open>abc\<close>), a key
  without a handler and a directive without a colon are passed over.
\<close>

theorem malformed_number_raises:
  "get_style_attribute ''margin-top:-px'' baseline = Inl ValueError \<and>
   get_style_attribute ''margin-top:1.2.3px;display:none'' baseline = Inl ValueError \<and>
   get_style_attribute ''margin-top:abc;color:red;display'' baseline = Inr baseline"
proof (intro conjI)
  have "get_em ''1.2.3px'' = Inl ValueError"
    by (simp add: get_em_def RE_UNIT_match_def char_defs float_defs)
  then show "get_style_attribute ''margin-top:1.2.3px;display:none'' baseline = Inl ValueError"
    by (simp add: resolve_defs char_defs attr_margin_top_def clone_id)
  have "get_em ''abc'' = Inl AttributeError"
    by (simp add: get_em_def RE_UNIT_match_def char_defs float_defs)
  then show "get_style_attribute ''margin-top:abc;color:red;display'' baseline = Inr baseline"
    by (simp add: resolve_defs char_defs attr_margin_top_def clone_id)
  show "get_style_attribute ''margin-top:-px'' baseline = Inl ValueError"
    by (simp add: resolve_defs char_defs attr_margin_top_def clone_id get_em_minus_px)
qed

text \<open>
  C4. Resolution never mutates its baseline argument: after
  \<^verbatim>\<open>get_style_attribute\<close> has run, whether it returned or raised, every object
  that existed before the call has the field values it had, the baseline
  among them; the objects of \<^verbatim>\<open>DEFAULT_CSS\<close> stay as the module made them, so
  a lookup of a tag gives the same record after the call as before.
\<close>

theorem resolution_never_mutates_baseline:
  "take (length st) (snd (get_style_attribute_st style html_element st)) = st \<and>
   (html_element < length st \<longrightarrow>
      snd (get_style_attribute_st style html_element st) ! html_element = st ! html_element) \<and>
   (take (length module_store) st = module_store \<longrightarrow>
      take (length module_store) (snd (get_style_attribute_st style html_element st)) =
        module_store \<and>
      DEFAULT_CSS_get tag_name (snd (get_style_attribute_st style html_element st)) =
        DEFAULT_CSS_get tag_name st)"
proof (intro conjI impI)
  let ?st' = "snd (get_style_attribute_st style html_element st)"
  show frame: "take (length st) ?st' = st"
    by (rule get_style_attribute_st_frame)
  show "?st' ! html_element = st ! html_element" if "html_element < length st"
    using that frame by (metis nth_take)
  show intact: "take (length module_store) ?st' = module_store"
    if "take (length module_store) st = module_store"
  proof -
    from arg_cong [OF that, of length]
    have "min (length st) (length module_store) = length module_store"
      by (simp only: length_take)
    then have "length module_store \<le> length st"
      by linarith
    then have "take (length module_store) ?st' = take (length module_store) (take (length st) ?st')"
      by (simp add: min_def)
    with frame that show ?thesis by simp
  qed
  show "DEFAULT_CSS_get tag_name ?st' = DEFAULT_CSS_get tag_name st"
    if "take (length module_store) st = module_store"
    using DEFAULT_CSS_get_prefix [OF intact [OF that]] DEFAULT_CSS_get_prefix [OF that]
    by simp
qed

theorem resolution_never_mutates_baseline_witness:
  "6 < length module_store \<and> take (length module_store) module_store = module_store \<and>
   fst (get_style_attribute_st ''margin-top:2em'' 6 module_store) = Inr (length module_store) \<and>
   snd (get_style_attribute_st ''margin-top:2em'' 6 module_store) ! 6 = module_store ! 6 \<and>
   margin_before (module_store ! 6) = 1 \<and>
   DEFAULT_CSS_get ''p'' (snd (get_style_attribute_st ''margin-top:2em'' 6 module_store)) =
     DEFAULT_CSS_get ''p'' module_store"
proof -
  have len: "6 < length module_store"
    by (simp add: module_store_def DEFAULT_CSS_def)
  have pure: "get_style_attribute ''margin-top:2em'' (module_store ! 6) =
      Inr ((module_store ! 6)\<lparr>margin_before := 2\<rparr>)"
    by (simp add: resolve_defs char_defs attr_margin_top_def clone_id get_em_2em)
  have "fst (get_style_attribute_st ''margin-top:2em'' 6 module_store) =
      Inr (length module_store)"
    using get_style_attribute_st_pure(1) [OF len, of "''margin-top:2em''"] pure by simp
  moreover have "margin_before (module_store ! 6) = 1"
    by (simp add: module_store_def DEFAULT_CSS_def HtmlElement_init_def)
  ultimately show ?thesis
    using len resolution_never_mutates_baseline
      [of module_store "''margin-top:2em''" 6 "''p''"]
    by simp
qed

text \<open>
  C2, as stated: after any resolution of a baseline with non-negative numeric
  fields the numeric fields are non-negative. The pattern admits a leading
  \<^verbatim>\<open>-\<close> and nothing clamps the result: \<^verbatim>\<open>margin-top:-16px\<close> on the default
  element gives \<open>margin_before = -2\<close>.
\<close>

theorem negative_length_counterexample:
  "get_style_attribute ''margin-top:-16px'' HtmlElement_init =
     Inr (HtmlElement_init\<lparr>margin_before := - 2\<rparr>) \<and>
   0 \<le> margin_before HtmlElement_init \<and> 0 \<le> margin_after HtmlElement_init \<and>
   0 \<le> padding HtmlElement_init \<and>
   margin_before (HtmlElement_init\<lparr>margin_before := - 2\<rparr>) < 0"
  by (simp add: resolve_defs char_defs attr_margin_top_def clone_id get_em_minus_16px
      HtmlElement_init_def)

text \<open>
  C2, amended: when no declaration of the style string has a \<^verbatim>\<open>-\<close> after its
  first colon, the baseline has non-negative numeric fields and the
  resolution returns a record, then \<open>margin_before\<close>, \<open>margin_after\<close> and
  \<open>padding\<close> of that record are non-negative.
\<close>

theorem numeric_fields_nonnegative:
  assumes "get_style_attribute style baseline = Inr r"
    and "\<forall>d\<in>set (split CHR '';'' style). CHR ''-'' \<notin> set (snd (split1 CHR '':'' d))"
    and "0 \<le> margin_before baseline" and "0 \<le> margin_after baseline"
    and "0 \<le> padding baseline"
  shows "0 \<le> margin_before r \<and> 0 \<le> margin_after r \<and> 0 \<le> padding r"
proof -
  from assms(1) have run: "style_directives (map lower (split CHR '';'' style)) baseline = Inr r"
    by (simp add: get_style_attribute_def split_lower clone_id)
  from assms(2)
  have "\<forall>d\<in>set (map lower (split CHR '';'' style)).
          CHR ''-'' \<notin> set (snd (split1 CHR '':'' d))"
    by (simp add: split1_lower minus_in_lower)
  from style_directives_nonneg [OF run this] assms(3-5) show ?thesis by simp
qed

theorem numeric_fields_nonnegative_witness:
  "get_style_attribute ''margin-top:16px;padding-left:2em'' HtmlElement_init =
     Inr (HtmlElement_init\<lparr>margin_before := 2, padding := 2\<rparr>) \<and>
   split CHR '';'' ''margin-top:16px;padding-left:2em'' =
     [''margin-top:16px'', ''padding-left:2em''] \<and>
   CHR ''-'' \<notin> set (snd (split1 CHR '':'' ''margin-top:16px'')) \<and>
   CHR ''-'' \<notin> set (snd (split1 CHR '':'' ''padding-left:2em'')) \<and>
   0 \<le> margin_before HtmlElement_init \<and> 0 \<le> margin_after HtmlElement_init \<and>
   0 \<le> padding HtmlElement_init \<and>
   0 \<le> margin_before (HtmlElement_init\<lparr>margin_before := 2, padding := 2\<rparr>) \<and>
   0 \<le> margin_after (HtmlElement_init\<lparr>margin_before := 2, padding := 2\<rparr>) \<and>
   0 \<le> padding (HtmlElement_init\<lparr>margin_before := 2, padding := 2\<rparr>)"
proof -
  have run: "get_style_attribute ''margin-top:16px;padding-left:2em'' HtmlElement_init =
     Inr (HtmlElement_init\<lparr>margin_before := 2, padding := 2\<rparr>)"
    by (simp add: resolve_defs char_defs attr_margin_top_def attr_padding_left_def clone_id
        get_em_16px get_em_2em)
  have free: "\<forall>d\<in>set (split CHR '';'' ''margin-top:16px;padding-left:2em'').
      CHR ''-'' \<notin> set (snd (split1 CHR '':'' d))"
    by (simp add: split1_def)
  have base: "0 \<le> margin_before HtmlElement_init" "0 \<le> margin_after HtmlElement_init"
    "0 \<le> padding HtmlElement_init"
    by (simp_all add: HtmlElement_init_def)
  have pieces: "split CHR '';'' ''margin-top:16px;padding-left:2em'' =
     [''margin-top:16px'', ''padding-left:2em'']"
    by simp
  have no_minus: "CHR ''-'' \<notin> set (snd (split1 CHR '':'' ''margin-top:16px''))"
    "CHR ''-'' \<notin> set (snd (split1 CHR '':'' ''padding-left:2em''))"
    by (simp_all add: split1_def)
  from numeric_fields_nonnegative [OF run free base] run pieces no_minus base show ?thesis
    by simp
qed

text \<open>
  C3, as stated: \<^verbatim>\<open>_get_em\<close> equals the reference conversion, unitless no_minus
  included. The pattern wants at least one word character after the number:
  of the unitless \<^verbatim>\<open>16\<close> it takes \<^verbatim>\<open>1\<close> as the number and \<^verbatim>\<open>6\<close> as the unit, so
  the result is 0 where the reference gives 2, and on \<^verbatim>\<open>8\<close> it finds no match
  and raises where the reference gives 1.
\<close>

theorem unitless_length_counterexample:
  "get_em ''16'' = Inr 0 \<and> get_em_spec ''16'' = Some 2 \<and>
   get_em ''8'' = Inl AttributeError \<and> get_em_spec ''8'' = Some 1 \<and>
   returned (get_em ''16'') \<noteq> get_em_spec ''16''"
proof -
  have "get_em_spec ''8'' = Some 1"
    by (simp add: get_em_spec_def spec_match_def spec_number_def char_defs float_defs)
  then show ?thesis
    by (simp add: get_em_16 get_em_spec_16 get_em_8 returned_def)
qed

text \<open>
  C3, amended: on a value that holds a number (an optional \<^verbatim>\<open>-\<close>, digits, an
  optional \<^verbatim>\<open>.\<close> with digits) directly followed by a non-empty alphabetic
  unit, with no character of the class \<^verbatim>\<open>[\-0-9\.]\<close> before the number and no
  word character directly after the unit, the pattern matches exactly that
  number and that unit, and \<^verbatim>\<open>_get_em\<close> equals the reference conversion: the
  float value of the number rounded to the nearest integer for the units em,
  rem and qem, and that value divided by 8 and rounded for any other unit.
\<close>

theorem get_em_agrees_on_number_with_unit:
  assumes "\<forall>c\<in>set skipped. \<not> isnumchar c"
    and "sign = [] \<or> sign = ''-''"
    and "whole \<noteq> []" and "\<forall>c\<in>set whole. isdigit c"
    and "\<forall>c\<in>set ds. isdigit c"
    and "fraction = (if ds = [] then [] else CHR ''.'' # ds)"
    and "unit \<noteq> []" and "\<forall>c\<in>set unit. isalpha c"
    and "rest = [] \<or> \<not> isword (hd rest)"
  shows "RE_UNIT_search (skipped @ sign @ whole @ fraction @ unit @ rest) =
           Some (sign @ whole @ fraction, unit) \<and>
         returned (get_em (skipped @ sign @ whole @ fraction @ unit @ rest)) =
           get_em_spec (skipped @ sign @ whole @ fraction @ unit @ rest)"
proof -
  let ?num = "sign @ whole @ fraction"
  let ?t = "?num @ unit @ rest"
  have dot: "isnumchar CHR ''.''" and minus: "isnumchar CHR ''-''"
    by (simp_all add: isnumchar_def)
  from assms(2,4,5,6) dot minus have numchars: "\<forall>c\<in>set ?num. isnumchar c"
    by (auto simp add: isdigit_facts split: if_splits)
  from assms(3) have nonempty: "?num \<noteq> []" by simp
  have "RE_UNIT_match ?t = Some (?num, unit)"
    by (rule RE_UNIT_match_number_unit [OF nonempty numchars assms(7,8,9)])
  then have "RE_UNIT_search ?t = Some (?num, unit)"
    by (rule RE_UNIT_search_match)
  with RE_UNIT_search_skip [OF assms(1), of ?t]
  have code: "RE_UNIT_search (skipped @ sign @ whole @ fraction @ unit @ rest) =
      Some (?num, unit)"
    by simp
  have number: "spec_number (sign @ whole @ fraction @ unit @ rest) = ?num"
    by (rule spec_number_number_unit [OF assms(2,3,4,5,6,7,8)])
  from assms(8) have "\<forall>c\<in>set unit. isalpha c" .
  moreover have "rest = [] \<or> \<not> isalpha (hd rest)"
    using assms(9) isalpha_facts(3) by blast
  ultimately have "takeWhile isalpha (unit @ rest) = unit"
    by (intro takeWhile_stop) simp_all
  with number nonempty have "spec_match (sign @ whole @ fraction @ unit @ rest) = Some (?num, unit)"
    by (simp add: spec_match_def)
  then have "spec_search (sign @ whole @ fraction @ unit @ rest) = Some (?num, unit)"
    by (rule spec_search_match)
  with spec_search_skip [OF assms(1), of "sign @ whole @ fraction @ unit @ rest"]
  have spec: "spec_search (skipped @ sign @ whole @ fraction @ unit @ rest) =
      Some (?num, unit)"
    by simp
  have "returned (get_em (skipped @ sign @ whole @ fraction @ unit @ rest)) =
           get_em_spec (skipped @ sign @ whole @ fraction @ unit @ rest)"
    unfolding get_em_def get_em_spec_def returned_def code spec
    by (auto split: sum.splits)
  with code show ?thesis by simp
qed

theorem get_em_agrees_on_number_with_unit_witness:
  "isdigit CHR ''1'' \<and> isdigit CHR ''6'' \<and> isalpha CHR ''p'' \<and> isalpha CHR ''x'' \<and>
   RE_UNIT_search ''16px'' = Some (''16'', ''px'') \<and>
   returned (get_em ''16px'') = get_em_spec ''16px'' \<and>
   get_em_spec ''16px'' = Some 2"
proof -
  have digits: "\<forall>c\<in>set ''16''. isdigit c"
    by (simp add: char_defs)
  have letters: "\<forall>c\<in>set ''px''. isalpha c"
    by (simp add: char_defs)
  from get_em_agrees_on_number_with_unit
    [where skipped = "[]" and sign = "[]" and whole = "''16''" and ds = "[]"
       and fraction = "[]" and unit = "''px''" and rest = "[]"]
    digits letters
  have "RE_UNIT_search ''16px'' = Some (''16'', ''px'') \<and>
      returned (get_em ''16px'') = get_em_spec ''16px''"
    by simp
  then show ?thesis
    using digits letters by (simp add: get_em_16px returned_def)
qed

end
